theory Spec2Isabelle
  imports Main
begin

section \<open>The ad_dns module: data\<close>

text \<open>
  The module reconciles one DNS record of an Active Directory zone with a desired state by
  running \<^verbatim>\<open>samba-tool dns\<close> and reading its output (\<^verbatim>\<open>src/ad_dns.py\<close>).
  The argument specification of \<^verbatim>\<open>main\<close> restricts \<^verbatim>\<open>type\<close> and \<^verbatim>\<open>state\<close> to
  fixed choices; the framework rejects every other value before \<^verbatim>\<open>main\<close> reads the
  parameters, so both are enumerations here.
\<close>

datatype rtype = A | AAAA | PTR | CNAME | NS | MX | SRV | TXT

fun type_name :: "rtype \<Rightarrow> string" where
  "type_name A = ''A''"
| "type_name AAAA = ''AAAA''"
| "type_name PTR = ''PTR''"
| "type_name CNAME = ''CNAME''"
| "type_name NS = ''NS''"
| "type_name MX = ''MX''"
| "type_name SRV = ''SRV''"
| "type_name TXT = ''TXT''"

datatype dns_state = Present | Absent

text \<open>
  The AnsibleModule object as \<^verbatim>\<open>main\<close> uses it: the validated parameters, the
  check-mode flag and the path that \<^verbatim>\<open>get_bin_path('samba-tool', required=True)\<close>
  returned (the framework aborts by itself when the executable is missing, before the
  wrapper object exists).
\<close>

record ansible_module =
  p_server :: string
  p_username :: string
  p_password :: string
  p_zone :: string
  p_record :: string
  p_value :: string
  p_type :: rtype
  p_state :: dns_state
  check_mode :: bool
  samba_tool_path :: string

text \<open>
  How a run of the module ends. \<^verbatim>\<open>exit_json\<close> and \<^verbatim>\<open>fail_json\<close> both leave the
  process, so each is a terminal value that carries the keyword arguments of the call:
  \<^item> \<open>Exit_ok msg\<close> is \<^verbatim>\<open>exit_json(ok=True, msg=msg)\<close>;
  \<^item> \<open>Exit_changed b msg\<close> is \<^verbatim>\<open>exit_json(changed=b, msg=msg)\<close>;
  \<^item> \<open>Fail msg\<close> is \<^verbatim>\<open>fail_json(msg=msg)\<close>;
  \<^item> \<open>Fail_tool msg err rc\<close> is
    \<^verbatim>\<open>fail_json(msg=msg, samba_tool_stderr=err, samba_tool_rc=rc)\<close>.
\<close>

datatype module_exit =
    Exit_ok string
  | Exit_changed bool string
  | Fail string
  | Fail_tool string string int

text \<open>
  The classification the caller sees: a result without a \<^verbatim>\<open>changed\<close> key counts as
  unchanged, a failure is neither.
\<close>

datatype outcome = Unchanged | Changed | Failed

fun classify :: "module_exit \<Rightarrow> outcome" where
  "classify (Exit_ok msg) = Unchanged"
| "classify (Exit_changed b msg) = (if b then Changed else Unchanged)"
| "classify (Fail msg) = Failed"
| "classify (Fail_tool msg err rc) = Failed"

fun message :: "module_exit \<Rightarrow> string" where
  "message (Exit_ok msg) = msg"
| "message (Exit_changed b msg) = msg"
| "message (Fail msg) = msg"
| "message (Fail_tool msg err rc) = msg"

section \<open>Strings\<close>

text \<open>\<^verbatim>\<open>sep.join(xs)\<close>.\<close>

fun join :: "string \<Rightarrow> string list \<Rightarrow> string" where
  "join sep [] = []"
| "join sep [x] = x"
| "join sep (x # y # ys) = x @ sep @ join sep (y # ys)"

text \<open>
  \<open>lit p s\<close> reads the literal text \<open>p\<close> at the start of \<open>s\<close> and returns what
  follows it, \<open>None\<close> when \<open>s\<close> does not start with \<open>p\<close>.
\<close>

fun lit :: "string \<Rightarrow> string \<Rightarrow> string option" where
  "lit [] s = Some s"
| "lit (p # ps) [] = None"
| "lit (p # ps) (c # cs) = (if p = c then lit ps cs else None)"

text \<open>\<^verbatim>\<open>needle in hay\<close> on strings: \<open>needle\<close> occurs somewhere in \<open>hay\<close>.\<close>

fun str_in :: "string \<Rightarrow> string \<Rightarrow> bool" where
  "str_in needle [] = (needle = [])"
| "str_in needle (c # cs) = (lit needle (c # cs) \<noteq> None \<or> str_in needle cs)"

section \<open>The record pattern\<close>

text \<open>
  \<^verbatim>\<open>get_exist_dns\<close> searches the tool's output with
  \<^verbatim>\<open>'{}: ([0-9.]+) \(flags=(.*), serial=(.*), ttl=(.*)\)'.format(type)\<close>.
  The names of the eight record types hold letters only, so the formatted prefix is literal
  text. The matcher below is the backtracking search of Python's \<^verbatim>\<open>re\<close> for this
  pattern: a greedy repetition first takes every character it can and gives them back one
  at a time while the rest of the pattern fails. The rest of the pattern is the
  continuation \<open>k\<close>, which receives the text the group captured and the remaining input.
\<close>

type_synonym existing = "string \<times> string \<times> string \<times> string"

fun greedy :: "(char \<Rightarrow> bool) \<Rightarrow> (string \<Rightarrow> string \<Rightarrow> 'a option) \<Rightarrow> string \<Rightarrow> string \<Rightarrow> 'a option" where
  "greedy p k acc [] = k acc []"
| "greedy p k acc (c # cs) =
     (if p c
      then (case greedy p k (acc @ [c]) cs of Some r \<Rightarrow> Some r | None \<Rightarrow> k acc (c # cs))
      else k acc (c # cs))"

text \<open>\<^verbatim>\<open>[0-9.]\<close>, and \<^verbatim>\<open>.\<close>, which matches every character but the line feed.\<close>

definition is_value_char :: "char \<Rightarrow> bool" where
  "is_value_char c = (c \<in> set ''0123456789.'')"

definition is_dot :: "char \<Rightarrow> bool" where
  "is_dot c = (c \<noteq> CHR 0x0A)"

text \<open>The pattern from its end to its start: each piece continues with the one above it.\<close>

definition re_close :: "string \<Rightarrow> string \<Rightarrow> string \<Rightarrow> string \<Rightarrow> string \<Rightarrow> (existing \<times> string) option" where
  "re_close v f se t s =
     (case lit '')'' s of None \<Rightarrow> None | Some rest \<Rightarrow> Some ((v, f, se, t), rest))"

definition re_ttl :: "string \<Rightarrow> string \<Rightarrow> string \<Rightarrow> string \<Rightarrow> (existing \<times> string) option" where
  "re_ttl v f se s =
     (case lit '', ttl='' s of None \<Rightarrow> None | Some s' \<Rightarrow> greedy is_dot (re_close v f se) [] s')"

definition re_serial :: "string \<Rightarrow> string \<Rightarrow> string \<Rightarrow> (existing \<times> string) option" where
  "re_serial v f s =
     (case lit '', serial='' s of None \<Rightarrow> None | Some s' \<Rightarrow> greedy is_dot (re_ttl v f) [] s')"

definition re_flags :: "string \<Rightarrow> string \<Rightarrow> (existing \<times> string) option" where
  "re_flags v s =
     (case lit '' (flags='' s of None \<Rightarrow> None | Some s' \<Rightarrow> greedy is_dot (re_serial v) [] s')"

definition re_value :: "string \<Rightarrow> (existing \<times> string) option" where
  "re_value s =
     (case s of [] \<Rightarrow> None
      | c # cs \<Rightarrow> if is_value_char c then greedy is_value_char re_flags [c] cs else None)"

text \<open>
  \<open>re_match ty s\<close> is the match of the whole pattern at the start of \<open>s\<close>: the four
  groups and the input after the match.
\<close>

definition re_match :: "rtype \<Rightarrow> string \<Rightarrow> (existing \<times> string) option" where
  "re_match ty s =
     (case lit (type_name ty @ '': '') s of None \<Rightarrow> None | Some s' \<Rightarrow> re_value s')"

text \<open>A match consumes input: the search for the next one starts on a shorter string.\<close>

lemma lit_length: "lit p s = Some r \<Longrightarrow> length s = length p + length r"
  by (induction p s rule: lit.induct) (auto split: if_splits)

lemma greedy_length:
  assumes "\<And>a s' x r. k a s' = Some (x, r) \<Longrightarrow> length r \<le> length s'"
    and "greedy p k acc s = Some (x, r)"
  shows "length r \<le> length s"
  using assms(2)
proof (induction s arbitrary: acc)
  case Nil
  then show ?case using assms(1) by force
next
  case (Cons c cs)
  show ?case
  proof (cases "p c")
    case True
    show ?thesis
    proof (cases "greedy p k (acc @ [c]) cs")
      case None
      with True Cons.prems have "k acc (c # cs) = Some (x, r)" by simp
      then show ?thesis using assms(1) by blast
    next
      case (Some y)
      with True Cons.prems have "greedy p k (acc @ [c]) cs = Some (x, r)" by simp
      then have "length r \<le> length cs" by (rule Cons.IH)
      then show ?thesis by simp
    qed
  next
    case False
    with Cons.prems have "k acc (c # cs) = Some (x, r)" by simp
    then show ?thesis using assms(1) by blast
  qed
qed

lemma re_close_length: "re_close v f se t s = Some (x, r) \<Longrightarrow> length r < length s"
  by (auto simp: re_close_def split: option.splits dest: lit_length)

lemma re_ttl_length: "re_ttl v f se s = Some (x, r) \<Longrightarrow> length r \<le> length s"
proof -
  assume a: "re_ttl v f se s = Some (x, r)"
  then obtain s' where l: "lit '', ttl='' s = Some s'"
    and g: "greedy is_dot (re_close v f se) [] s' = Some (x, r)"
    by (auto simp: re_ttl_def split: option.splits)
  have "length r \<le> length s'"
    by (rule greedy_length [OF _ g]) (auto dest: re_close_length)
  with lit_length [OF l] show ?thesis by simp
qed

lemma re_serial_length: "re_serial v f s = Some (x, r) \<Longrightarrow> length r \<le> length s"
proof -
  assume a: "re_serial v f s = Some (x, r)"
  then obtain s' where l: "lit '', serial='' s = Some s'"
    and g: "greedy is_dot (re_ttl v f) [] s' = Some (x, r)"
    by (auto simp: re_serial_def split: option.splits)
  have "length r \<le> length s'"
    by (rule greedy_length [OF _ g]) (auto dest: re_ttl_length)
  with lit_length [OF l] show ?thesis by simp
qed

lemma re_flags_length: "re_flags v s = Some (x, r) \<Longrightarrow> length r \<le> length s"
proof -
  assume a: "re_flags v s = Some (x, r)"
  then obtain s' where l: "lit '' (flags='' s = Some s'"
    and g: "greedy is_dot (re_serial v) [] s' = Some (x, r)"
    by (auto simp: re_flags_def split: option.splits)
  have "length r \<le> length s'"
    by (rule greedy_length [OF _ g]) (auto dest: re_serial_length)
  with lit_length [OF l] show ?thesis by simp
qed

lemma re_value_length: "re_value s = Some (x, r) \<Longrightarrow> length r < length s"
proof -
  assume a: "re_value s = Some (x, r)"
  then obtain c cs where s: "s = c # cs"
    and g: "greedy is_value_char re_flags [c] cs = Some (x, r)"
    by (auto simp: re_value_def split: list.splits if_splits)
  have "length r \<le> length cs"
    by (rule greedy_length [OF _ g]) (auto dest: re_flags_length)
  with s show ?thesis by simp
qed

lemma re_match_length: "re_match ty s = Some (x, r) \<Longrightarrow> length r < length s"
  by (auto simp: re_match_def split: option.splits dest!: lit_length re_value_length)

text \<open>
  \<^verbatim>\<open>re.findall\<close>: the matches from left to right, without overlap. Where the pattern
  matches, its groups are one result and the search goes on after the match; where it does
  not, the search moves one character on.
\<close>

function findall :: "rtype \<Rightarrow> string \<Rightarrow> existing list" where
  "findall ty [] = []"
| "findall ty (c # cs) =
     (case re_match ty (c # cs) of
        None \<Rightarrow> findall ty cs
      | Some (x, rest) \<Rightarrow> x # findall ty rest)"
  by pat_completeness auto
termination
  by (relation "measure (\<lambda>(ty, s). length s)") (auto dest: re_match_length)

section \<open>Running the tool\<close>

text \<open>
  \<^verbatim>\<open>run_command\<close> returns the exit code, the standard output and the standard error
  of the command. The source tests \<^verbatim>\<open>stdout is not None\<close>, so the output may be
  absent. The tool and the DNS server are outside the program: a shell is any function
  from the command line and the state of the outside world to a result and the next state
  of the world.
\<close>

type_synonym cmd_result = "int \<times> string option \<times> string"

type_synonym 'w shell = "string \<Rightarrow> 'w \<Rightarrow> cmd_result \<times> 'w"

text \<open>
  The state of a run: the outside world, and the argument lists of the commands run so far,
  oldest first.
\<close>

record 'w run =
  world :: 'w
  calls :: "string list list"

definition run_command :: "'w shell \<Rightarrow> string list \<Rightarrow> 'w run \<Rightarrow> cmd_result \<times> 'w run" where
  "run_command sh cmd r =
     (case sh (join '' '' cmd) (world r) of
        (res, w') \<Rightarrow> (res, \<lparr>world = w', calls = calls r @ [cmd]\<rparr>))"

section \<open>SambaToolDNS\<close>

record SambaToolDNS =
  smbtool :: string
  server :: string
  zone :: string
  cmdb :: "string list"
  cmdc :: "string list"

definition quoted :: "string \<Rightarrow> string" where
  "quoted s = [CHR 0x27] @ s @ [CHR 0x27]"

definition SambaToolDNS_init :: "ansible_module \<Rightarrow> SambaToolDNS" where
  "SambaToolDNS_init m =
     \<lparr>smbtool = samba_tool_path m,
      server = p_server m,
      zone = p_zone m,
      cmdb = [samba_tool_path m, ''dns''],
      cmdc = [''--username='' @ quoted (p_username m), ''--password='' @ quoted (p_password m)]\<rparr>"

text \<open>The command lines of the two methods.\<close>

definition query_cmd :: "SambaToolDNS \<Rightarrow> string \<Rightarrow> rtype \<Rightarrow> string list" where
  "query_cmd st record ty =
     cmdb st @ [''query'', server st, zone st, record, type_name ty] @ cmdc st"

definition manage_cmd :: "SambaToolDNS \<Rightarrow> string \<Rightarrow> string \<Rightarrow> rtype \<Rightarrow> string \<Rightarrow> string list" where
  "manage_cmd st record val ty action =
     cmdb st @ [action, server st, zone st, record, type_name ty, val] @ cmdc st"

text \<open>
  \<^verbatim>\<open>get_exist_dns\<close>: \<open>Inl\<close> is the exit through \<^verbatim>\<open>fail_json\<close>, \<open>Inr\<close> the list
  the method returns.
\<close>

definition get_exist_dns ::
  "'w shell \<Rightarrow> SambaToolDNS \<Rightarrow> string \<Rightarrow> rtype \<Rightarrow> 'w run \<Rightarrow> (module_exit + existing list) \<times> 'w run" where
  "get_exist_dns sh st record ty r =
     (case run_command sh (query_cmd st record ty) r of
        ((rc, stdout, stderr), r') \<Rightarrow>
          if str_in ''WERR_DNS_ERROR_ZONE_DOES_NOT_EXIST'' stderr
          then (Inl (Fail (''Zone '' @ zone st @ '' does not exists.'')), r')
          else if rc \<noteq> 0 \<or> str_in ''WERR_DNS_ERROR_NAME_DOES_NOT_EXIST'' stderr
          then (Inr [], r')
          else (case stdout of
                  Some out \<Rightarrow> (Inr (findall ty out), r')
                | None \<Rightarrow> (Inr [], r')))"

text \<open>
  \<^verbatim>\<open>manage_dns\<close>: \<open>Some e\<close> is an exit through \<^verbatim>\<open>exit_json\<close> or
  \<^verbatim>\<open>fail_json\<close>, \<open>None\<close> the normal return.
\<close>

definition manage_dns ::
  "'w shell \<Rightarrow> SambaToolDNS \<Rightarrow> string \<Rightarrow> string \<Rightarrow> rtype \<Rightarrow> string \<Rightarrow> 'w run \<Rightarrow> module_exit option \<times> 'w run" where
  "manage_dns sh st record val ty action r =
     (if action \<notin> set [''add'', ''delete'']
      then (Some (Fail ''Wrong action for managing DNS record''), r)
      else (case run_command sh (manage_cmd st record val ty action) r of
              ((rc, stdout, stderr), r') \<Rightarrow>
                if action = ''add'' \<and> rc \<noteq> 0 \<and> str_in ''WERR_DNS_ERROR_RECORD_ALREADY_EXISTS'' stderr
                then (Some (Exit_changed False ''Rercord already present''), r')
                else if rc \<noteq> 0
                then (Some (Fail_tool (''Action '' @ action @ '' for record failed'') stderr rc), r')
                else (None, r')))"

section \<open>main\<close>

text \<open>
  The loop of the present branch: it leaves the module at the first record whose value is
  the wanted one. \<open>True\<close> means that it left.
\<close>

fun value_found :: "existing list \<Rightarrow> string \<Rightarrow> bool" where
  "value_found [] val = False"
| "value_found (rec # recs) val = (if fst rec = val then True else value_found recs val)"

text \<open>
  The branches of \<^verbatim>\<open>main\<close> on \<^verbatim>\<open>state\<close> (lines 246 to 271), from the list that
  \<^verbatim>\<open>get_exist_dns\<close> returned.
\<close>

definition reconcile ::
  "'w shell \<Rightarrow> ansible_module \<Rightarrow> SambaToolDNS \<Rightarrow> existing list \<Rightarrow> 'w run \<Rightarrow> module_exit \<times> 'w run" where
  "reconcile sh m st exist_records r =
     (case p_state m of
        Present \<Rightarrow>
          if exist_records \<noteq> [] \<and> value_found exist_records (p_value m)
          then (Exit_ok ''Record already present'', r)
          else if \<not> check_mode m
          then (case manage_dns sh st (p_record m) (p_value m) (p_type m) ''add'' r of
                  (Some e, r') \<Rightarrow> (e, r')
                | (None, r') \<Rightarrow> (Exit_changed True ''Record has been created'', r'))
          else (Exit_changed True ''Record has been created'', r)
      | Absent \<Rightarrow>
          if exist_records \<noteq> []
          then if p_value m \<in> set (map fst exist_records)
               then if \<not> check_mode m
                    then (case manage_dns sh st (p_record m) (p_value m) (p_type m) ''delete'' r of
                            (Some e, r') \<Rightarrow> (e, r')
                          | (None, r') \<Rightarrow> (Exit_changed True ''Record has been deleted'', r'))
                    else (Exit_changed True ''Record has been deleted'', r)
               else (Exit_ok (''Record found with different value, but not with '' @ p_value m), r)
          else (Exit_ok ''No such record found'', r))"

definition main :: "'w shell \<Rightarrow> ansible_module \<Rightarrow> 'w run \<Rightarrow> module_exit \<times> 'w run" where
  "main sh m r =
     (let st = SambaToolDNS_init m in
      case get_exist_dns sh st (p_record m) (p_type m) r of
        (Inl e, r') \<Rightarrow> (e, r')
      | (Inr exist_records, r') \<Rightarrow> reconcile sh m st exist_records r')"

section \<open>Reading runs\<close>

text \<open>
  The text of one record in the tool's output,
  \<^verbatim>\<open>TYPE: VALUE (flags=F, serial=S, ttl=T)\<close>.
\<close>

definition record_text :: "rtype \<Rightarrow> existing \<Rightarrow> string" where
  "record_text ty x =
     (case x of (v, f, se, t) \<Rightarrow>
        type_name ty @ '': '' @ v @ '' (flags='' @ f @ '', serial='' @ se @ '', ttl='' @ t @ '')'')"

text \<open>
  The word after \<^verbatim>\<open>samba-tool dns\<close> in a command (\<^verbatim>\<open>query\<close>, \<^verbatim>\<open>add\<close> or
  \<^verbatim>\<open>delete\<close>), and the value argument of an add or delete command.
\<close>

fun subcommand :: "string list \<Rightarrow> string option" where
  "subcommand (tool # dns # sub # args) = Some sub"
| "subcommand cmd = None"

fun value_arg :: "string list \<Rightarrow> string option" where
  "value_arg (tool # dns # sub # srv # zn # record # ty # val # creds) = Some val"
| "value_arg cmd = None"

text \<open>The commands a run added to the log: those of \<open>r'\<close> that \<open>r\<close> did not have yet.\<close>

definition issued :: "'w run \<Rightarrow> 'w run \<Rightarrow> string list list" where
  "issued r r' = drop (length (calls r)) (calls r')"

text \<open>
  A tool that answers from a script: the world is the list of the results still to come,
  and each command takes the next one.
\<close>

fun scripted :: "string \<Rightarrow> cmd_result list \<Rightarrow> cmd_result \<times> cmd_result list" where
  "scripted c [] = ((1, None, []), [])"
| "scripted c (res # rest) = (res, rest)"

definition script :: "cmd_result list \<Rightarrow> cmd_result list run" where
  "script rs = \<lparr>world = rs, calls = []\<rparr>"

text \<open>The first task of the module's own examples.\<close>

definition example_module :: ansible_module where
  "example_module =
     \<lparr>p_server = ''dc01.example.com'', p_username = ''admin.user'',
      p_password = ''admin.password'', p_zone = ''example.com'', p_record = ''www'',
      p_value = ''10.1.1.123'', p_type = A, p_state = Present, check_mode = False,
      samba_tool_path = ''/usr/bin/samba-tool''\<rparr>"

section \<open>The tool, for the runs in sequence\<close>

text \<open>
  Modelled from the spec: the external DNS tool and the server behind it, which are no
  part of the module, as far as two runs in sequence need them. The world is the list of
  the values stored under the record name and type of the module's parameters. A query
  prints them the way the comment in \<^verbatim>\<open>get_exist_dns\<close> shows the output, or fails
  with the missing-name error when there are none; an add inserts the wanted value, and
  refuses a value that is there already; a delete removes exactly the wanted value, and
  refuses a value that is not there.
\<close>

fun decimal :: "nat \<Rightarrow> string" where
  "decimal n =
     (if n < 10 then [''0123456789'' ! n]
      else decimal (n div 10) @ [''0123456789'' ! (n mod 10)])"

declare decimal.simps [simp del]

definition record_line :: "rtype \<Rightarrow> string \<Rightarrow> string" where
  "record_line ty v = ''    '' @ record_text ty (v, ''f0'', ''0'', ''1800'') @ [CHR 0x0A]"

definition query_output :: "rtype \<Rightarrow> string list \<Rightarrow> string" where
  "query_output ty vs =
     ''  Name=, Records='' @ decimal (length vs) @ '', Children=0'' @ [CHR 0x0A] @
     concat (map (record_line ty) vs)"

definition samba_tool :: "ansible_module \<Rightarrow> string \<Rightarrow> string list \<Rightarrow> cmd_result \<times> string list" where
  "samba_tool m c vs =
     (let st = SambaToolDNS_init m in
      if c = join '' '' (query_cmd st (p_record m) (p_type m))
      then (if vs = []
            then ((255, Some [], ''ERROR: WERR_DNS_ERROR_NAME_DOES_NOT_EXIST''), vs)
            else ((0, Some (query_output (p_type m) vs), []), vs))
      else if c = join '' '' (manage_cmd st (p_record m) (p_value m) (p_type m) ''add'')
      then (if p_value m \<in> set vs
            then ((255, Some [], ''ERROR: WERR_DNS_ERROR_RECORD_ALREADY_EXISTS''), vs)
            else ((0, Some ''Record added successfully'', []), vs @ [p_value m]))
      else if c = join '' '' (manage_cmd st (p_record m) (p_value m) (p_type m) ''delete'')
      then (if p_value m \<in> set vs
            then ((0, Some ''Record deleted successfully'', []), removeAll (p_value m) vs)
            else ((255, Some [], ''ERROR: WERR_DNS_ERROR_RECORD_DOES_NOT_EXIST''), vs))
      else ((255, Some [], ''ERROR: unknown command''), vs))"

text \<open>A stored value as the pattern reads it back from the query's output.\<close>

definition stored :: "string \<Rightarrow> existing" where
  "stored v = (v, ''f0'', ''0'', ''1800'')"

text \<open>A value of the only shape the pattern reads: digits and dots, at least one.\<close>

definition numeric :: "string \<Rightarrow> bool" where
  "numeric v = (v \<noteq> [] \<and> list_all is_value_char v)"

text \<open>The second task of the module's own examples, a CNAME record.\<close>

definition cname_module :: ansible_module where
  "cname_module = example_module\<lparr>p_record := ''web'', p_value := ''www.example.com'', p_type := CNAME\<rparr>"

section \<open>Properties of the matcher\<close>

lemma lit_iff: "lit p s = Some r \<longleftrightarrow> s = p @ r"
  by (induction p s rule: lit.induct) auto

text \<open>
  What a successful greedy repetition did: it took a run of matching characters and the
  continuation accepted the rest.
\<close>

lemma greedy_sound:
  "greedy p k acc s = Some r \<Longrightarrow> \<exists>a b. s = a @ b \<and> list_all p a \<and> k (acc @ a) b = Some r"
proof (induction s arbitrary: acc)
  case Nil
  then show ?case by simp
next
  case (Cons c cs)
  show ?case
  proof (cases "p c \<and> greedy p k (acc @ [c]) cs \<noteq> None")
    case True
    with Cons.prems have "greedy p k (acc @ [c]) cs = Some r" by auto
    from Cons.IH [OF this] obtain a b
      where "cs = a @ b" "list_all p a" "k ((acc @ [c]) @ a) b = Some r" by blast
    with True have "c # cs = (c # a) @ b \<and> list_all p (c # a) \<and> k (acc @ c # a) b = Some r"
      by simp
    then show ?thesis by blast
  next
    case False
    with Cons.prems have "k acc (c # cs) = Some r" by (auto split: if_splits option.splits)
    then have "c # cs = [] @ (c # cs) \<and> list_all p [] \<and> k (acc @ []) (c # cs) = Some r" by simp
    then show ?thesis by blast
  qed
qed

text \<open>A match of the pattern is a text of the record shape, with a value of digits and dots.\<close>

lemma re_match_sound:
  assumes "re_match ty s = Some ((v, f, se, t), rest)"
  shows "s = record_text ty (v, f, se, t) @ rest \<and> v \<noteq> [] \<and> list_all is_value_char v \<and>
         list_all is_dot f \<and> list_all is_dot se \<and> list_all is_dot t"
proof -
  from assms obtain c s1 where s: "s = type_name ty @ '': '' @ c # s1" and c: "is_value_char c"
    and g1: "greedy is_value_char re_flags [c] s1 = Some ((v, f, se, t), rest)"
    by (auto simp: re_match_def re_value_def lit_iff split: option.splits list.splits if_splits)
  from greedy_sound [OF g1] obtain a1 s2 where s1: "s1 = a1 @ s2" and a1: "list_all is_value_char a1"
    and k1: "re_flags ([c] @ a1) s2 = Some ((v, f, se, t), rest)" by blast
  from k1 obtain s3 where s2: "s2 = '' (flags='' @ s3"
    and g2: "greedy is_dot (re_serial ([c] @ a1)) [] s3 = Some ((v, f, se, t), rest)"
    by (auto simp: re_flags_def lit_iff split: option.splits)
  from greedy_sound [OF g2] obtain a2 s4 where s3: "s3 = a2 @ s4" and a2: "list_all is_dot a2"
    and k2: "re_serial ([c] @ a1) ([] @ a2) s4 = Some ((v, f, se, t), rest)" by blast
  from k2 obtain s5 where s4: "s4 = '', serial='' @ s5"
    and g3: "greedy is_dot (re_ttl ([c] @ a1) ([] @ a2)) [] s5 = Some ((v, f, se, t), rest)"
    by (auto simp: re_serial_def lit_iff split: option.splits)
  from greedy_sound [OF g3] obtain a3 s6 where s5: "s5 = a3 @ s6" and a3: "list_all is_dot a3"
    and k3: "re_ttl ([c] @ a1) ([] @ a2) ([] @ a3) s6 = Some ((v, f, se, t), rest)" by blast
  from k3 obtain s7 where s6: "s6 = '', ttl='' @ s7"
    and g4: "greedy is_dot (re_close ([c] @ a1) ([] @ a2) ([] @ a3)) [] s7 = Some ((v, f, se, t), rest)"
    by (auto simp: re_ttl_def lit_iff split: option.splits)
  from greedy_sound [OF g4] obtain a4 s8 where s7: "s7 = a4 @ s8" and a4: "list_all is_dot a4"
    and k4: "re_close ([c] @ a1) ([] @ a2) ([] @ a3) ([] @ a4) s8 = Some ((v, f, se, t), rest)" by blast
  from k4 have e: "v = c # a1" "f = a2" "se = a3" "t = a4" and s8: "s8 = '')'' @ rest"
    by (auto simp: re_close_def lit_iff split: option.splits)
  show ?thesis
    using s s1 s2 s3 s4 s5 s6 s7 s8 e c a1 a2 a3 a4 by (simp add: record_text_def)
qed

text \<open>A result of \<open>findall\<close> comes from a match somewhere in the input.\<close>

lemma findall_nonempty:
  "findall ty s \<noteq> [] \<Longrightarrow> \<exists>pre suf x rest. s = pre @ suf \<and> re_match ty suf = Some (x, rest)"
proof (induction ty s rule: findall.induct)
  case (1 ty)
  then show ?case by simp
next
  case (2 ty c cs)
  show ?case
  proof (cases "re_match ty (c # cs)")
    case None
    with 2 obtain pre suf x rest where "cs = pre @ suf" "re_match ty suf = Some (x, rest)"
      by auto
    then have "c # cs = (c # pre) @ suf \<and> re_match ty suf = Some (x, rest)" by simp
    then show ?thesis by blast
  next
    case (Some y)
    then obtain x rest where "re_match ty (c # cs) = Some (x, rest)" by (cases y) auto
    then have "c # cs = [] @ (c # cs) \<and> re_match ty (c # cs) = Some (x, rest)" by simp
    then show ?thesis by blast
  qed
qed

lemma type_name_one_line: "CHR 0x0A \<notin> set (type_name ty)"
  by (cases ty) simp_all

lemma value_char_one_line: "list_all is_value_char v \<Longrightarrow> CHR 0x0A \<notin> set v"
proof -
  have "\<not> is_value_char (CHR 0x0A)" by (simp add: is_value_char_def)
  then show "list_all is_value_char v \<Longrightarrow> CHR 0x0A \<notin> set v"
    unfolding list_all_iff by blast
qed

lemma dot_one_line: "list_all is_dot v \<Longrightarrow> CHR 0x0A \<notin> set v"
  unfolding list_all_iff is_dot_def by blast

lemma record_text_one_line:
  assumes "list_all is_value_char v" and "list_all is_dot f" "list_all is_dot se" "list_all is_dot t"
  shows "CHR 0x0A \<notin> set (record_text ty (v, f, se, t))"
  using type_name_one_line [of ty] value_char_one_line [OF assms(1)]
    dot_one_line [OF assms(2)] dot_one_line [OF assms(3)] dot_one_line [OF assms(4)]
  by (simp add: record_text_def)

text \<open>Where no line of the input holds a text of the record shape, nothing is found.\<close>

lemma findall_no_record_text:
  assumes "\<forall>pre x post. CHR 0x0A \<notin> set (record_text ty x) \<longrightarrow> out \<noteq> pre @ record_text ty x @ post"
  shows "findall ty out = []"
proof (rule ccontr)
  assume "findall ty out \<noteq> []"
  from findall_nonempty [OF this] obtain pre suf x rest
    where out: "out = pre @ suf" and m: "re_match ty suf = Some (x, rest)" by blast
  obtain v f se t where x: "x = (v, f, se, t)" by (cases x) auto
  from re_match_sound [OF m [unfolded x]]
  have suf: "suf = record_text ty x @ rest" and v: "list_all is_value_char v"
    and d: "list_all is_dot f" "list_all is_dot se" "list_all is_dot t"
    by (simp_all add: x)
  have "CHR 0x0A \<notin> set (record_text ty x)"
    using v d unfolding x by (rule record_text_one_line)
  with assms out suf show False by blast
qed

section \<open>The query\<close>

text \<open>
  C5. Zone-missing is fatal. Whatever the exit code and the standard output of the query
  are, and whatever else the standard error holds (the marker of a missing name too), a
  standard error that contains \<^verbatim>\<open>WERR_DNS_ERROR_ZONE_DOES_NOT_EXIST\<close> makes
  \<^verbatim>\<open>get_exist_dns\<close> leave through \<^verbatim>\<open>fail_json\<close> with the zone message; it returns
  no list.
\<close>

theorem get_exist_dns_zone_missing:
  assumes "sh (join '' '' (query_cmd st record ty)) (world r) = ((rc, stdout, stderr), w')"
    and "str_in ''WERR_DNS_ERROR_ZONE_DOES_NOT_EXIST'' stderr"
  shows "get_exist_dns sh st record ty r =
           (Inl (Fail (''Zone '' @ zone st @ '' does not exists.'')),
            \<lparr>world = w', calls = calls r @ [query_cmd st record ty]\<rparr>)"
  using assms by (simp add: get_exist_dns_def run_command_def)

text \<open>
  The exit code is zero, the output holds a record and the standard error holds both
  markers: the zone check comes first.
\<close>

theorem get_exist_dns_zone_missing_witness:
  "str_in ''WERR_DNS_ERROR_ZONE_DOES_NOT_EXIST''
       ''WERR_DNS_ERROR_NAME_DOES_NOT_EXIST WERR_DNS_ERROR_ZONE_DOES_NOT_EXIST'' \<and>
   str_in ''WERR_DNS_ERROR_NAME_DOES_NOT_EXIST''
       ''WERR_DNS_ERROR_NAME_DOES_NOT_EXIST WERR_DNS_ERROR_ZONE_DOES_NOT_EXIST'' \<and>
   fst (get_exist_dns scripted (SambaToolDNS_init example_module) ''www'' A
       (script [(0, Some ''    A: 10.1.1.123 (flags=f0, serial=0, ttl=1800)'',
          ''WERR_DNS_ERROR_NAME_DOES_NOT_EXIST WERR_DNS_ERROR_ZONE_DOES_NOT_EXIST'')])) =
     Inl (Fail ''Zone example.com does not exists.'')"
  using get_exist_dns_zone_missing [of scripted "SambaToolDNS_init example_module" "''www''" A
      "script [(0, Some ''    A: 10.1.1.123 (flags=f0, serial=0, ttl=1800)'',
          ''WERR_DNS_ERROR_NAME_DOES_NOT_EXIST WERR_DNS_ERROR_ZONE_DOES_NOT_EXIST'')]"
      0 "Some ''    A: 10.1.1.123 (flags=f0, serial=0, ttl=1800)''"
      "''WERR_DNS_ERROR_NAME_DOES_NOT_EXIST WERR_DNS_ERROR_ZONE_DOES_NOT_EXIST''" "[]"]
  by (simp add: script_def SambaToolDNS_init_def example_module_def)

text \<open>
  C6. Record-absent classification. When the standard error of the query does not hold the
  zone marker, \<^verbatim>\<open>get_exist_dns\<close> always returns a list (it never fails, whatever the
  output looks like), and the list is empty whenever the exit code is not zero, or the
  standard error holds \<^verbatim>\<open>WERR_DNS_ERROR_NAME_DOES_NOT_EXIST\<close>, or the output is absent
  or empty, or no line of the output holds a text of the record shape
  \<^verbatim>\<open>TYPE: VALUE (flags=F, serial=S, ttl=T)\<close>.
\<close>

theorem get_exist_dns_record_absent:
  assumes "sh (join '' '' (query_cmd st record ty)) (world r) = ((rc, stdout, stderr), w')"
    and "\<not> str_in ''WERR_DNS_ERROR_ZONE_DOES_NOT_EXIST'' stderr"
  shows "(\<exists>recs. fst (get_exist_dns sh st record ty r) = Inr recs) \<and>
         (rc \<noteq> 0 \<or> str_in ''WERR_DNS_ERROR_NAME_DOES_NOT_EXIST'' stderr \<or>
          stdout = None \<or> stdout = Some [] \<or>
          (\<exists>out. stdout = Some out \<and>
             (\<forall>pre x post. CHR 0x0A \<notin> set (record_text ty x) \<longrightarrow> out \<noteq> pre @ record_text ty x @ post))
          \<longrightarrow> fst (get_exist_dns sh st record ty r) = Inr [])"
proof -
  let ?res = "fst (get_exist_dns sh st record ty r)"
  have 1: "\<exists>recs. ?res = Inr recs"
    using assms by (auto simp: get_exist_dns_def run_command_def split: option.splits)
  have 2: "?res = Inr []" if "rc \<noteq> 0 \<or> str_in ''WERR_DNS_ERROR_NAME_DOES_NOT_EXIST'' stderr"
    using assms that by (auto simp: get_exist_dns_def run_command_def)
  have 3: "?res = Inr []" if "stdout = None \<or> stdout = Some []"
    using assms that by (auto simp: get_exist_dns_def run_command_def)
  have 4: "?res = Inr []" if "stdout = Some out"
    and "\<forall>pre x post. CHR 0x0A \<notin> set (record_text ty x) \<longrightarrow> out \<noteq> pre @ record_text ty x @ post"
    for out
    using assms that(1) findall_no_record_text [OF that(2)]
    by (auto simp: get_exist_dns_def run_command_def)
  from 1 2 3 4 show ?thesis by blast
qed

text \<open>
  A failed query that reports a missing name, and a successful query whose output is not
  what the pattern expects: both give the empty list.
\<close>

theorem get_exist_dns_record_absent_witness:
  "\<not> str_in ''WERR_DNS_ERROR_ZONE_DOES_NOT_EXIST'' ''ERROR: WERR_DNS_ERROR_NAME_DOES_NOT_EXIST'' \<and>
   fst (get_exist_dns scripted (SambaToolDNS_init example_module) ''www'' A
       (script [(255, None, ''ERROR: WERR_DNS_ERROR_NAME_DOES_NOT_EXIST'')])) = Inr [] \<and>
   fst (get_exist_dns scripted (SambaToolDNS_init example_module) ''www'' A
       (script [(0, Some ''no records here'', [])])) = Inr []"
proof -
  have shape: "\<forall>pre x post. CHR 0x0A \<notin> set (record_text A x) \<longrightarrow>
      ''no records here'' \<noteq> pre @ record_text A x @ post"
  proof (intro allI impI notI)
    fix pre x post
    assume e: "''no records here'' = pre @ record_text A x @ post"
    have "CHR ''('' \<in> set (pre @ record_text A x @ post)"
      by (cases x) (simp add: record_text_def)
    with e [symmetric] show False by simp
  qed
  have a: "fst (get_exist_dns scripted (SambaToolDNS_init example_module) ''www'' A
       (script [(255, None, ''ERROR: WERR_DNS_ERROR_NAME_DOES_NOT_EXIST'')])) = Inr []"
    using get_exist_dns_record_absent [of scripted "SambaToolDNS_init example_module" "''www''" A
        "script [(255, None, ''ERROR: WERR_DNS_ERROR_NAME_DOES_NOT_EXIST'')]"
        255 None "''ERROR: WERR_DNS_ERROR_NAME_DOES_NOT_EXIST''" "[]"]
    by (simp add: script_def)
  have b: "fst (get_exist_dns scripted (SambaToolDNS_init example_module) ''www'' A
       (script [(0, Some ''no records here'', [])])) = Inr []"
    using shape get_exist_dns_record_absent [of scripted "SambaToolDNS_init example_module" "''www''" A
        "script [(0, Some ''no records here'', [])]" 0 "Some ''no records here''" "[]" "[]"]
    by (simp add: script_def)
  from a b show ?thesis by simp
qed

section \<open>The apply step\<close>

text \<open>
  C10. Action guard. For every action other than \<^verbatim>\<open>add\<close> and \<^verbatim>\<open>delete\<close>,
  \<^verbatim>\<open>manage_dns\<close> leaves through \<^verbatim>\<open>fail_json\<close> with the message
  \<^verbatim>\<open>Wrong action for managing DNS record\<close> before it builds or runs a command: the
  state of the run (the world and the log of commands) is the one it started from.
\<close>

theorem manage_dns_wrong_action:
  assumes "action \<noteq> ''add''" and "action \<noteq> ''delete''"
  shows "manage_dns sh st record val ty action r =
           (Some (Fail ''Wrong action for managing DNS record''), r)"
  using assms by (simp add: manage_dns_def)

theorem manage_dns_wrong_action_witness:
  "''update'' \<noteq> ''add'' \<and> ''update'' \<noteq> ''delete'' \<and>
   manage_dns scripted (SambaToolDNS_init example_module) ''www'' ''10.1.1.123'' A ''update''
       (script [(0, Some ''Record added successfully'', [])]) =
     (Some (Fail ''Wrong action for managing DNS record''),
      script [(0, Some ''Record added successfully'', [])])"
  using manage_dns_wrong_action [of "''update''" scripted "SambaToolDNS_init example_module"
      "''www''" "''10.1.1.123''" A "script [(0, Some ''Record added successfully'', [])]"]
  by simp

text \<open>
  C7, as the claim states it, asks that a failed invocation carries the tool's standard
  output. It does not: two failed deletions that differ only in their standard output
  end in the same failure, which holds the message, the standard error and the exit code.
\<close>

theorem manage_dns_stdout_counterexample:
  "''first diagnostic'' \<noteq> ''second diagnostic'' \<and>
   fst (manage_dns scripted (SambaToolDNS_init example_module) ''www'' ''10.1.1.123'' A ''delete''
       (script [(255, Some ''first diagnostic'', ''ERROR: access denied'')])) =
     Some (Fail_tool ''Action delete for record failed'' ''ERROR: access denied'' 255) \<and>
   fst (manage_dns scripted (SambaToolDNS_init example_module) ''www'' ''10.1.1.123'' A ''delete''
       (script [(255, Some ''second diagnostic'', ''ERROR: access denied'')])) =
     Some (Fail_tool ''Action delete for record failed'' ''ERROR: access denied'' 255)"
  by (simp add: manage_dns_def run_command_def script_def)

text \<open>
  C7, amended. Apply-step error classification. For an add or a delete, \<^verbatim>\<open>manage_dns\<close>
  runs exactly one command. A zero exit code is a success: the method returns and the run
  goes on. An add that exits non-zero with \<^verbatim>\<open>WERR_DNS_ERROR_RECORD_ALREADY_EXISTS\<close> in
  its standard error ends the run unchanged (\<^verbatim>\<open>Rercord already present\<close>). Every other
  non-zero exit fails the run, and the failure carries the tool's standard error and exit
  code (not its standard output).
\<close>

theorem manage_dns_classification:
  assumes "action = ''add'' \<or> action = ''delete''"
    and "sh (join '' '' (manage_cmd st record val ty action)) (world r) = ((rc, stdout, stderr), w')"
  shows "manage_dns sh st record val ty action r =
           (if rc = 0 then None
            else if action = ''add'' \<and> str_in ''WERR_DNS_ERROR_RECORD_ALREADY_EXISTS'' stderr
            then Some (Exit_changed False ''Rercord already present'')
            else Some (Fail_tool (''Action '' @ action @ '' for record failed'') stderr rc),
            \<lparr>world = w', calls = calls r @ [manage_cmd st record val ty action]\<rparr>)"
  using assms by (auto simp: manage_dns_def run_command_def)

theorem manage_dns_classification_witness:
  "manage_dns scripted (SambaToolDNS_init example_module) ''www'' ''10.1.1.123'' A ''add''
       (script [(255, Some [], ''ERROR: WERR_DNS_ERROR_RECORD_ALREADY_EXISTS'')]) =
     (Some (Exit_changed False ''Rercord already present''),
      \<lparr>world = [], calls = [manage_cmd (SambaToolDNS_init example_module) ''www'' ''10.1.1.123'' A ''add'']\<rparr>)"
  using manage_dns_classification [of "''add''" scripted "SambaToolDNS_init example_module"
      "''www''" "''10.1.1.123''" A "script [(255, Some [], ''ERROR: WERR_DNS_ERROR_RECORD_ALREADY_EXISTS'')]"
      255 "Some []" "''ERROR: WERR_DNS_ERROR_RECORD_ALREADY_EXISTS''" "[]"]
  by (simp add: script_def)

section \<open>The decision\<close>

lemma value_found_iff: "value_found recs val \<longleftrightarrow> val \<in> fst ` set recs"
  by (induction recs) auto

lemma issued_same [simp]: "issued r r = []"
  by (simp add: issued_def)

lemma issued_append [simp]: "issued r \<lparr>world = w, calls = calls r @ cs\<rparr> = cs"
  by (simp add: issued_def)

lemma subcommand_init [simp]:
  "subcommand (query_cmd (SambaToolDNS_init m) record ty) = Some ''query''"
  "subcommand (manage_cmd (SambaToolDNS_init m) record val ty action) = Some action"
  "value_arg (manage_cmd (SambaToolDNS_init m) record val ty action) = Some val"
  by (simp_all add: query_cmd_def manage_cmd_def SambaToolDNS_init_def)

text \<open>
  C1. Ensure-present decision. With \<^verbatim>\<open>state=present\<close>, for every list of current
  records: if some record has the wanted value, the run ends with
  \<^verbatim>\<open>Record already present\<close> (unchanged) and the state of the run is untouched, so no
  command was run; otherwise a real run (not check mode) runs exactly one command, the add
  of the wanted value, and ends changed with \<^verbatim>\<open>Record has been created\<close> when the tool
  exits with zero. In every mode, no command that the branch runs is a delete.
\<close>

theorem reconcile_present:
  fixes m :: ansible_module and r :: "'w run"
  defines "st \<equiv> SambaToolDNS_init m"
  defines "add \<equiv> manage_cmd st (p_record m) (p_value m) (p_type m) ''add''"
  assumes "p_state m = Present"
    and "sh (join '' '' add) (world r) = ((rc, stdout, stderr), w')"
  shows "(p_value m \<in> fst ` set recs \<longrightarrow>
            reconcile sh m st recs r = (Exit_ok ''Record already present'', r)) \<and>
         (p_value m \<notin> fst ` set recs \<and> \<not> check_mode m \<longrightarrow>
            snd (reconcile sh m st recs r) = \<lparr>world = w', calls = calls r @ [add]\<rparr> \<and>
            subcommand add = Some ''add'' \<and> value_arg add = Some (p_value m) \<and>
            (rc = 0 \<longrightarrow> fst (reconcile sh m st recs r) = Exit_changed True ''Record has been created'')) \<and>
         (\<forall>c \<in> set (issued r (snd (reconcile sh m st recs r))). subcommand c \<noteq> Some ''delete'')"
proof -
  have found: "p_value m \<in> fst ` set recs \<Longrightarrow> recs \<noteq> [] \<and> value_found recs (p_value m)"
    by (auto simp: value_found_iff)
  have 1: "reconcile sh m st recs r = (Exit_ok ''Record already present'', r)"
    if "p_value m \<in> fst ` set recs"
    using assms(3) found [OF that] by (simp add: reconcile_def)
  have nf: "\<not> value_found recs (p_value m)" if "p_value m \<notin> fst ` set recs"
    using that by (simp add: value_found_iff)
  have 2: "snd (reconcile sh m st recs r) = \<lparr>world = w', calls = calls r @ [add]\<rparr> \<and>
      (rc = 0 \<longrightarrow> fst (reconcile sh m st recs r) = Exit_changed True ''Record has been created'')"
    if "p_value m \<notin> fst ` set recs" "\<not> check_mode m"
    using assms(3,4) nf [OF that(1)] that(2)
    by (simp add: reconcile_def manage_dns_def run_command_def add_def)
  have 3: "issued r (snd (reconcile sh m st recs r)) = [] \<or>
      issued r (snd (reconcile sh m st recs r)) = [add]"
  proof (cases "p_value m \<in> fst ` set recs")
    case True
    then show ?thesis using 1 by simp
  next
    case False
    show ?thesis
    proof (cases "check_mode m")
      case True
      then show ?thesis using assms(3) nf [OF False] by (simp add: reconcile_def)
    next
      case False
      then show ?thesis using 2 [OF \<open>p_value m \<notin> fst ` set recs\<close>] by simp
    qed
  qed
  have 4: "subcommand add = Some ''add''" "value_arg add = Some (p_value m)"
    by (simp_all add: add_def st_def)
  from 3 4 have 5: "\<forall>c \<in> set (issued r (snd (reconcile sh m st recs r))). subcommand c \<noteq> Some ''delete''"
    by auto
  from 1 2 4 5 show ?thesis by blast
qed

text \<open>
  The record holds 10.1.1.123 and 10.1.1.124 is wanted: one add of 10.1.1.124, no delete.
\<close>

theorem reconcile_present_witness:
  "reconcile scripted (example_module\<lparr>p_value := ''10.1.1.124''\<rparr>) (SambaToolDNS_init example_module)
       [(''10.1.1.123'', ''f0'', ''0'', ''1800'')]
       (script [(0, Some ''Record added successfully'', [])]) =
     (Exit_changed True ''Record has been created'',
      \<lparr>world = [],
       calls = [[''/usr/bin/samba-tool'', ''dns'', ''add'', ''dc01.example.com'', ''example.com'',
                 ''www'', ''A'', ''10.1.1.124'',
                 ''--username='' @ quoted ''admin.user'', ''--password='' @ quoted ''admin.password'']]\<rparr>)"
  using reconcile_present [of "example_module\<lparr>p_value := ''10.1.1.124''\<rparr>" scripted
      "script [(0, Some ''Record added successfully'', [])]" 0 "Some ''Record added successfully''" "[]" "[]"
      "[(''10.1.1.123'', ''f0'', ''0'', ''1800'')]"]
  by (simp add: script_def example_module_def SambaToolDNS_init_def manage_cmd_def prod_eq_iff)

text \<open>
  C2. Ensure-absent decision. With \<^verbatim>\<open>state=absent\<close>: an empty list of current records
  ends the run with \<^verbatim>\<open>No such record found\<close>, and a list without the wanted value
  ends it with \<^verbatim>\<open>Record found with different value\<close>, both unchanged and with the
  state of the run untouched; otherwise a real run runs exactly one command, the delete of
  the wanted value, and ends changed with \<^verbatim>\<open>Record has been deleted\<close> when the tool
  exits with zero. In every mode, each command the branch runs is a delete of the wanted
  value.
\<close>

theorem reconcile_absent:
  fixes m :: ansible_module and r :: "'w run"
  defines "st \<equiv> SambaToolDNS_init m"
  defines "del \<equiv> manage_cmd st (p_record m) (p_value m) (p_type m) ''delete''"
  assumes "p_state m = Absent"
    and "sh (join '' '' del) (world r) = ((rc, stdout, stderr), w')"
  shows "(recs = [] \<longrightarrow> reconcile sh m st recs r = (Exit_ok ''No such record found'', r)) \<and>
         (recs \<noteq> [] \<and> p_value m \<notin> fst ` set recs \<longrightarrow>
            reconcile sh m st recs r =
              (Exit_ok (''Record found with different value, but not with '' @ p_value m), r)) \<and>
         (p_value m \<in> fst ` set recs \<and> \<not> check_mode m \<longrightarrow>
            snd (reconcile sh m st recs r) = \<lparr>world = w', calls = calls r @ [del]\<rparr> \<and>
            subcommand del = Some ''delete'' \<and> value_arg del = Some (p_value m) \<and>
            (rc = 0 \<longrightarrow> fst (reconcile sh m st recs r) = Exit_changed True ''Record has been deleted'')) \<and>
         (\<forall>c \<in> set (issued r (snd (reconcile sh m st recs r))).
            subcommand c = Some ''delete'' \<and> value_arg c = Some (p_value m))"
proof -
  have 1: "reconcile sh m st recs r = (Exit_ok ''No such record found'', r)" if "recs = []"
    using assms(3) that by (simp add: reconcile_def)
  have 2: "reconcile sh m st recs r =
      (Exit_ok (''Record found with different value, but not with '' @ p_value m), r)"
    if "recs \<noteq> []" "p_value m \<notin> fst ` set recs"
    using assms(3) that by (simp add: reconcile_def)
  have ne: "recs \<noteq> []" if "p_value m \<in> fst ` set recs"
    using that by auto
  have 3: "snd (reconcile sh m st recs r) = \<lparr>world = w', calls = calls r @ [del]\<rparr> \<and>
      (rc = 0 \<longrightarrow> fst (reconcile sh m st recs r) = Exit_changed True ''Record has been deleted'')"
    if "p_value m \<in> fst ` set recs" "\<not> check_mode m"
    using assms(3,4) ne [OF that(1)] that
    by (simp add: reconcile_def manage_dns_def run_command_def del_def)
  have 4: "issued r (snd (reconcile sh m st recs r)) = [] \<or>
      issued r (snd (reconcile sh m st recs r)) = [del]"
  proof (cases "p_value m \<in> fst ` set recs \<and> \<not> check_mode m")
    case True
    then show ?thesis using 3 by simp
  next
    case False
    then show ?thesis using assms(3) by (auto simp: reconcile_def)
  qed
  have 5: "subcommand del = Some ''delete''" "value_arg del = Some (p_value m)"
    by (simp_all add: del_def st_def)
  from 4 5 have 6: "\<forall>c \<in> set (issued r (snd (reconcile sh m st recs r))).
      subcommand c = Some ''delete'' \<and> value_arg c = Some (p_value m)"
    by auto
  from 1 2 3 5 6 show ?thesis by blast
qed

text \<open>
  The record holds 10.1.1.123 and 10.1.1.124, and 10.1.1.123 is to go: one delete, of
  10.1.1.123.
\<close>

theorem reconcile_absent_witness:
  "reconcile scripted (example_module\<lparr>p_state := Absent\<rparr>) (SambaToolDNS_init example_module)
       [(''10.1.1.123'', ''f0'', ''0'', ''1800''), (''10.1.1.124'', ''f0'', ''0'', ''1800'')]
       (script [(0, Some ''Record deleted successfully'', [])]) =
     (Exit_changed True ''Record has been deleted'',
      \<lparr>world = [],
       calls = [[''/usr/bin/samba-tool'', ''dns'', ''delete'', ''dc01.example.com'', ''example.com'',
                 ''www'', ''A'', ''10.1.1.123'',
                 ''--username='' @ quoted ''admin.user'', ''--password='' @ quoted ''admin.password'']]\<rparr>)"
  using reconcile_absent [of "example_module\<lparr>p_state := Absent\<rparr>" scripted
      "script [(0, Some ''Record deleted successfully'', [])]" 0 "Some ''Record deleted successfully''" "[]" "[]"
      "[(''10.1.1.123'', ''f0'', ''0'', ''1800''), (''10.1.1.124'', ''f0'', ''0'', ''1800'')]"]
  by (simp add: script_def example_module_def SambaToolDNS_init_def manage_cmd_def prod_eq_iff)

text \<open>
  C4, as the claim states it, asks that check mode and the real run always agree. They do
  not when the add of the real run comes too late: the tool answers that the record exists
  already, the real run ends unchanged, and check mode reports a change.
\<close>

theorem check_mode_race_counterexample:
  "classify (fst (reconcile scripted (example_module\<lparr>check_mode := False\<rparr>)
       (SambaToolDNS_init example_module) []
       (script [(255, Some [], ''ERROR: WERR_DNS_ERROR_RECORD_ALREADY_EXISTS'')]))) = Unchanged \<and>
   classify (fst (reconcile scripted (example_module\<lparr>check_mode := True\<rparr>)
       (SambaToolDNS_init example_module) []
       (script [(255, Some [], ''ERROR: WERR_DNS_ERROR_RECORD_ALREADY_EXISTS'')]))) = Changed"
  by (simp add: reconcile_def manage_dns_def run_command_def script_def example_module_def)

text \<open>
  C4, amended. Dry run. On the same parameters, current records and world, the run in
  check mode leaves the state of the run untouched (it runs no add and no delete), and it
  ends exactly as the real run does (same classification, same message) whenever the real
  run runs no add or delete, or the one it runs exits with zero. In particular, whenever
  the real run ends changed, check mode ends changed with the same message.
\<close>

theorem reconcile_check_mode:
  fixes m :: ansible_module and r :: "'w run" and sh :: "'w shell" and st :: SambaToolDNS
    and recs :: "existing list"
  defines "action \<equiv> (case p_state m of Present \<Rightarrow> ''add'' | Absent \<Rightarrow> ''delete'')"
  defines "dry \<equiv> reconcile sh (m\<lparr>check_mode := True\<rparr>) st recs r"
  defines "real \<equiv> reconcile sh (m\<lparr>check_mode := False\<rparr>) st recs r"
  assumes "sh (join '' '' (manage_cmd st (p_record m) (p_value m) (p_type m) action)) (world r) =
             ((rc, stdout, stderr), w')"
  shows "snd dry = r \<and>
         (issued r (snd real) = [] \<or> rc = 0 \<longrightarrow> fst dry = fst real) \<and>
         (classify (fst real) = Changed \<longrightarrow> fst dry = fst real)"
proof -
  have 1: "snd dry = r"
    by (simp add: dry_def reconcile_def split: dns_state.splits)
  have 2: "fst dry = fst real" if "rc = 0"
    using assms(4) that
    by (cases "p_state m")
      (simp_all add: dry_def real_def action_def reconcile_def manage_dns_def run_command_def)
  have 3: "rc = 0 \<or> fst dry = fst real" if "issued r (snd real) = []"
    using assms(4) that
    by (cases "p_state m")
      (auto simp: dry_def real_def action_def reconcile_def manage_dns_def run_command_def
        split: if_splits)
  have 4: "rc = 0 \<or> fst dry = fst real" if "classify (fst real) = Changed"
    using assms(4) that
    by (cases "p_state m")
      (auto simp: dry_def real_def action_def reconcile_def manage_dns_def run_command_def
        split: if_splits)
  from 1 2 3 4 show ?thesis by blast
qed

theorem reconcile_check_mode_witness:
  "snd (reconcile scripted (example_module\<lparr>check_mode := True\<rparr>) (SambaToolDNS_init example_module) []
       (script [(0, Some ''Record added successfully'', [])])) =
     script [(0, Some ''Record added successfully'', [])] \<and>
   fst (reconcile scripted (example_module\<lparr>check_mode := True\<rparr>) (SambaToolDNS_init example_module) []
       (script [(0, Some ''Record added successfully'', [])])) =
     fst (reconcile scripted (example_module\<lparr>check_mode := False\<rparr>) (SambaToolDNS_init example_module) []
       (script [(0, Some ''Record added successfully'', [])])) \<and>
   classify (fst (reconcile scripted (example_module\<lparr>check_mode := False\<rparr>)
       (SambaToolDNS_init example_module) []
       (script [(0, Some ''Record added successfully'', [])]))) = Changed"
proof -
  have c: "classify (fst (reconcile scripted (example_module\<lparr>check_mode := False\<rparr>)
       (SambaToolDNS_init example_module) []
       (script [(0, Some ''Record added successfully'', [])]))) = Changed"
    by (simp add: reconcile_def manage_dns_def run_command_def script_def example_module_def)
  show ?thesis
    using c reconcile_check_mode [of scripted "SambaToolDNS_init example_module" example_module
        "script [(0, Some ''Record added successfully'', [])]" 0 "Some ''Record added successfully''"
        "[]" "[]" "[]"]
    by (simp add: script_def)
qed

section \<open>The whole run\<close>

text \<open>
  C9. Invocation bound and order. Every run of \<^verbatim>\<open>main\<close> runs either the query alone or
  the query followed by one add or delete: at most two commands, exactly one query, which
  comes first, and at most one mutating command, which is run in the world that the query
  left behind. When the query ends the run (the zone is missing), nothing follows it.
\<close>

theorem main_invocations:
  fixes m :: ansible_module and r :: "'w run" and sh :: "'w shell"
  defines "st \<equiv> SambaToolDNS_init m"
  defines "query \<equiv> query_cmd st (p_record m) (p_type m)"
  defines "action \<equiv> (case p_state m of Present \<Rightarrow> ''add'' | Absent \<Rightarrow> ''delete'')"
  defines "mutate \<equiv> manage_cmd st (p_record m) (p_value m) (p_type m) action"
  assumes "sh (join '' '' query) (world r) = (qres, w1)"
    and "sh (join '' '' mutate) w1 = (mres, w2)"
  shows "subcommand query = Some ''query'' \<and> subcommand mutate = Some action \<and>
         (snd (main sh m r) = \<lparr>world = w1, calls = calls r @ [query]\<rparr> \<or>
          snd (main sh m r) = \<lparr>world = w2, calls = calls r @ [query, mutate]\<rparr>) \<and>
         (fst (get_exist_dns sh st (p_record m) (p_type m) r) \<in> range Inl \<longrightarrow>
            snd (main sh m r) = \<lparr>world = w1, calls = calls r @ [query]\<rparr>)"
proof -
  let ?r1 = "\<lparr>world = w1, calls = calls r @ [query]\<rparr>"
  define res where "res = fst (get_exist_dns sh st (p_record m) (p_type m) r)"
  have "snd (get_exist_dns sh st (p_record m) (p_type m) r) = ?r1"
    using assms(5)
    by (cases qres) (simp add: get_exist_dns_def run_command_def query_def split: option.splits)
  then have g: "get_exist_dns sh st (p_record m) (p_type m) r = (res, ?r1)"
    by (simp add: res_def prod_eq_iff)
  have 1: "subcommand query = Some ''query''" "subcommand mutate = Some action"
    by (simp_all add: query_def mutate_def st_def)
  have 2: "snd (main sh m r) = ?r1" if "res = Inl e" for e
    using g that by (simp add: main_def st_def [symmetric])
  have 3: "snd (reconcile sh m st recs ?r1) = ?r1 \<or>
      snd (reconcile sh m st recs ?r1) = \<lparr>world = w2, calls = calls r @ [query, mutate]\<rparr>" for recs
    using assms(6)
    by (cases "p_state m"; cases mres)
      (auto simp: reconcile_def manage_dns_def run_command_def mutate_def action_def
        split: option.splits)
  have 4: "snd (main sh m r) = ?r1 \<or>
      snd (main sh m r) = \<lparr>world = w2, calls = calls r @ [query, mutate]\<rparr>"
  proof (cases res)
    case (Inl e)
    then show ?thesis using 2 by simp
  next
    case (Inr recs)
    then show ?thesis using g 3 [of recs] by (simp add: main_def st_def [symmetric])
  qed
  have 5: "snd (main sh m r) = ?r1"
    if "fst (get_exist_dns sh st (p_record m) (p_type m) r) \<in> range Inl"
    using that g 2 by auto
  from 1 4 5 show ?thesis by blast
qed

text \<open>
  The record does not exist yet and is wanted: one query, then one add, and the run ends
  changed.
\<close>

theorem main_invocations_witness:
  "main scripted example_module
       (script [(255, None, ''ERROR: WERR_DNS_ERROR_NAME_DOES_NOT_EXIST''),
                (0, Some ''Record added successfully'', [])]) =
     (Exit_changed True ''Record has been created'',
      \<lparr>world = [],
       calls = [[''/usr/bin/samba-tool'', ''dns'', ''query'', ''dc01.example.com'', ''example.com'',
                 ''www'', ''A'',
                 ''--username='' @ quoted ''admin.user'', ''--password='' @ quoted ''admin.password''],
                [''/usr/bin/samba-tool'', ''dns'', ''add'', ''dc01.example.com'', ''example.com'',
                 ''www'', ''A'', ''10.1.1.123'',
                 ''--username='' @ quoted ''admin.user'', ''--password='' @ quoted ''admin.password'']]\<rparr>)"
  using main_invocations [of scripted example_module
      "script [(255, None, ''ERROR: WERR_DNS_ERROR_NAME_DOES_NOT_EXIST''),
               (0, Some ''Record added successfully'', [])]"
      "(255, None, ''ERROR: WERR_DNS_ERROR_NAME_DOES_NOT_EXIST'')"
      "[(0, Some ''Record added successfully'', [])]"
      "(0, Some ''Record added successfully'', [])" "[]"]
  by (simp add: main_def Let_def get_exist_dns_def reconcile_def manage_dns_def run_command_def
      script_def example_module_def SambaToolDNS_init_def query_cmd_def manage_cmd_def)

section \<open>The value in the pattern\<close>

text \<open>
  C3. Parsing contract. The claim asks that the parser takes the value as an opaque string,
  so that the FQDN value of a CNAME, PTR or NS record is extracted just like the numeric
  value of an A record. The pattern takes digits and dots only: from the tool's output for
  an A record \<^verbatim>\<open>findall\<close> returns the record, and from the same output for a CNAME
  record with the value \<^verbatim>\<open>www.example.com\<close> it returns nothing.
\<close>

theorem findall_fqdn_dropped:
  "findall A (''  Name=, Records=1, Children=0'' @ [CHR 0x0A] @
       ''    A: 10.1.1.123 (flags=f0, serial=0, ttl=1800)'' @ [CHR 0x0A]) =
     [(''10.1.1.123'', ''f0'', ''0'', ''1800'')] \<and>
   findall CNAME (''  Name=, Records=1, Children=0'' @ [CHR 0x0A] @
       ''    CNAME: www.example.com (flags=f0, serial=0, ttl=1800)'' @ [CHR 0x0A]) = []"
  by (simp add: re_match_def re_value_def re_flags_def re_serial_def re_ttl_def re_close_def
      is_value_char_def is_dot_def)

text \<open>Whatever the input is, every value that \<open>findall\<close> returns is made of digits and dots.\<close>

lemma findall_values:
  "x \<in> set (findall ty s) \<Longrightarrow> numeric (fst x)"
proof (induction ty s rule: findall.induct)
  case (1 ty)
  then show ?case by simp
next
  case (2 ty c cs)
  show ?case
  proof (cases "re_match ty (c # cs)")
    case None
    with 2 show ?thesis by simp
  next
    case (Some y)
    obtain v f se t rest where y: "y = ((v, f, se, t), rest)" by (cases y) auto
    from re_match_sound [OF Some [unfolded y]] have "numeric v" by (simp add: numeric_def)
    with 2 Some y show ?thesis by auto
  qed
qed

section \<open>Two runs in sequence\<close>

lemma lit_append: "lit p (p @ r) = Some r"
  by (simp add: lit_iff)

lemma greedy_all:
  "list_all p cs \<Longrightarrow> \<not> p c \<Longrightarrow> k (acc @ cs) (c # rest) = Some x \<Longrightarrow>
     greedy p k acc (cs @ c # rest) = Some x"
proof (induction cs arbitrary: acc)
  case Nil
  then show ?case by simp
next
  case (Cons d ds)
  from Cons.prems have "greedy p k (acc @ [d]) (ds @ c # rest) = Some x"
    by (intro Cons.IH) simp_all
  with Cons.prems show ?case by simp
qed

lemma re_flags_line:
  "re_flags v ('' (flags=f0, serial=0, ttl=1800)'' @ CHR 0x0A # rest) =
     Some ((v, ''f0'', ''0'', ''1800''), CHR 0x0A # rest)"
  by (simp add: re_flags_def re_serial_def re_ttl_def re_close_def is_dot_def)

lemma re_match_line:
  assumes "numeric v"
  shows "re_match ty (record_text ty (stored v) @ CHR 0x0A # rest) = Some (stored v, CHR 0x0A # rest)"
proof -
  from assms obtain d ds where v: "v = d # ds" and d: "is_value_char d" and ds: "list_all is_value_char ds"
    by (cases v) (auto simp: numeric_def)
  have sp: "\<not> is_value_char (CHR '' '')" by (simp add: is_value_char_def)
  have "greedy is_value_char re_flags [d] (ds @ CHR '' '' # ''(flags=f0, serial=0, ttl=1800)'' @ CHR 0x0A # rest) =
      Some (stored v, CHR 0x0A # rest)"
    using re_flags_line [of v rest] by (intro greedy_all [OF ds sp]) (simp add: v stored_def)
  then have "re_value (v @ '' (flags=f0, serial=0, ttl=1800)'' @ CHR 0x0A # rest) = Some (stored v, CHR 0x0A # rest)"
    using d by (simp add: re_value_def v)
  moreover have "record_text ty (stored v) @ CHR 0x0A # rest =
      (type_name ty @ '': '') @ v @ '' (flags=f0, serial=0, ttl=1800)'' @ CHR 0x0A # rest"
    by (simp add: record_text_def stored_def)
  ultimately show ?thesis
    unfolding re_match_def by (simp only: lit_append option.case)
qed

lemma findall_match:
  "re_match ty s = Some (x, rest) \<Longrightarrow> findall ty s = x # findall ty rest"
  by (cases s) (auto simp: re_match_def re_value_def dest: lit_length split: option.splits)

lemma findall_skip:
  "c \<notin> set ''APCNMST'' \<Longrightarrow> findall ty (c # cs) = findall ty cs"
  by (cases ty) (auto simp: re_match_def)

lemma findall_line:
  assumes "numeric v"
  shows "findall ty (record_line ty v @ rest) = stored v # findall ty rest"
proof -
  have "findall ty (record_line ty v @ rest) = findall ty (record_text ty (stored v) @ CHR 0x0A # rest)"
    by (simp add: record_line_def findall_skip stored_def del: findall.simps(2))
  also have "\<dots> = stored v # findall ty (CHR 0x0A # rest)"
    by (rule findall_match [OF re_match_line [OF assms]])
  also have "\<dots> = stored v # findall ty rest"
    by (simp add: findall_skip del: findall.simps(2))
  finally show ?thesis .
qed

lemma findall_lines:
  "\<forall>v \<in> set vs. numeric v \<Longrightarrow>
     findall ty (concat (map (record_line ty) vs) @ rest) = map stored vs @ findall ty rest"
  by (induction vs) (simp_all add: findall_line)

lemma findall_digits:
  "set ds \<subseteq> set ''0123456789'' \<Longrightarrow> findall ty (ds @ rest) = findall ty rest"
proof (induction ds)
  case Nil
  then show ?case by simp
next
  case (Cons d ds)
  then have "d \<notin> set ''APCNMST''" by auto
  with Cons show ?case by (simp add: findall_skip del: findall.simps(2))
qed

lemma decimal_digits: "set (decimal n) \<subseteq> set ''0123456789''"
proof (induction n rule: decimal.induct)
  case (1 n)
  have d: "''0123456789'' ! k \<in> set ''0123456789''" if "k < 10" for k
    using that by (intro nth_mem) simp
  show ?case
  proof (cases "n < 10")
    case True
    then show ?thesis using d [of n] by (subst decimal.simps) simp
  next
    case False
    have "n mod 10 < 10" by simp
    from d [OF this] 1 [OF False] False show ?thesis
      by (subst decimal.simps) simp
  qed
qed

lemma findall_header:
  "findall ty (''  Name=, Records='' @ decimal n @ '', Children=0'' @ CHR 0x0A # rest) = findall ty rest"
proof -
  have a: "findall ty (''  Name=, Records='' @ s) = findall ty s" for s
    by (cases ty) (simp_all add: re_match_def)
  have b: "findall ty ('', Children=0'' @ CHR 0x0A # s) = findall ty s" for s
    by (cases ty) (simp_all add: re_match_def)
  show ?thesis
    by (simp only: a findall_digits [OF decimal_digits] b)
qed

lemma findall_query_output:
  assumes "\<forall>v \<in> set vs. numeric v"
  shows "findall ty (query_output ty vs) = map stored vs"
proof -
  have "findall ty (query_output ty vs) = findall ty (concat (map (record_line ty) vs) @ [])"
    unfolding query_output_def using findall_header [of ty "length vs" "concat (map (record_line ty) vs)"]
    by simp
  also have "\<dots> = map stored vs @ findall ty []"
    by (rule findall_lines [OF assms])
  finally show ?thesis by simp
qed

text \<open>The three commands of a run are different command lines, so the tool tells them apart.\<close>

lemma commands_differ:
  "join '' '' (query_cmd (SambaToolDNS_init m) record ty) \<noteq>
     join '' '' (manage_cmd (SambaToolDNS_init m) record' val ty' ''add'')"
  "join '' '' (query_cmd (SambaToolDNS_init m) record ty) \<noteq>
     join '' '' (manage_cmd (SambaToolDNS_init m) record' val ty' ''delete'')"
  "join '' '' (manage_cmd (SambaToolDNS_init m) record val ty ''delete'') \<noteq>
     join '' '' (manage_cmd (SambaToolDNS_init m) record' val' ty' ''add'')"
  by (simp_all add: query_cmd_def manage_cmd_def SambaToolDNS_init_def)

lemma samba_tool_query:
  "samba_tool m (join '' '' (query_cmd (SambaToolDNS_init m) (p_record m) (p_type m))) vs =
     (if vs = [] then ((255, Some [], ''ERROR: WERR_DNS_ERROR_NAME_DOES_NOT_EXIST''), vs)
      else ((0, Some (query_output (p_type m) vs), []), vs))"
  by (simp add: samba_tool_def)

lemma samba_tool_add:
  "samba_tool m (join '' '' (manage_cmd (SambaToolDNS_init m) (p_record m) (p_value m) (p_type m) ''add'')) vs =
     (if p_value m \<in> set vs
      then ((255, Some [], ''ERROR: WERR_DNS_ERROR_RECORD_ALREADY_EXISTS''), vs)
      else ((0, Some ''Record added successfully'', []), vs @ [p_value m]))"
  using commands_differ(1) [of m "p_record m" "p_type m" "p_record m" "p_value m" "p_type m"]
  by (simp add: samba_tool_def Let_def)

lemma samba_tool_delete:
  "samba_tool m (join '' '' (manage_cmd (SambaToolDNS_init m) (p_record m) (p_value m) (p_type m) ''delete'')) vs =
     (if p_value m \<in> set vs
      then ((0, Some ''Record deleted successfully'', []), removeAll (p_value m) vs)
      else ((255, Some [], ''ERROR: WERR_DNS_ERROR_RECORD_DOES_NOT_EXIST''), vs))"
  using commands_differ(2) [of m "p_record m" "p_type m" "p_record m" "p_value m" "p_type m"]
    commands_differ(3) [of m "p_record m" "p_value m" "p_type m" "p_record m" "p_value m" "p_type m"]
  by (simp add: samba_tool_def Let_def)

lemma get_exist_dns_store:
  assumes "\<forall>v \<in> set vs. numeric v"
  shows "get_exist_dns (samba_tool m) (SambaToolDNS_init m) (p_record m) (p_type m)
           \<lparr>world = vs, calls = cs\<rparr> =
         (Inr (map stored vs),
          \<lparr>world = vs, calls = cs @ [query_cmd (SambaToolDNS_init m) (p_record m) (p_type m)]\<rparr>)"
  using findall_query_output [OF assms, of "p_type m"]
  by (simp add: get_exist_dns_def run_command_def samba_tool_query)

lemma value_found_stored: "value_found (map stored vs) val \<longleftrightarrow> val \<in> set vs"
  by (induction vs) (auto simp: stored_def)

lemma fst_stored: "map fst (map stored vs) = vs"
  by (induction vs) (auto simp: stored_def)

lemma main_store:
  assumes "\<forall>v \<in> set vs. numeric v" and "\<not> check_mode m"
  shows "main (samba_tool m) m \<lparr>world = vs, calls = cs\<rparr> =
     (let st = SambaToolDNS_init m; q = query_cmd st (p_record m) (p_type m) in
      case p_state m of
        Present \<Rightarrow>
          if p_value m \<in> set vs
          then (Exit_ok ''Record already present'', \<lparr>world = vs, calls = cs @ [q]\<rparr>)
          else (Exit_changed True ''Record has been created'',
                \<lparr>world = vs @ [p_value m],
                 calls = cs @ [q, manage_cmd st (p_record m) (p_value m) (p_type m) ''add'']\<rparr>)
      | Absent \<Rightarrow>
          if p_value m \<in> set vs
          then (Exit_changed True ''Record has been deleted'',
                \<lparr>world = removeAll (p_value m) vs,
                 calls = cs @ [q, manage_cmd st (p_record m) (p_value m) (p_type m) ''delete'']\<rparr>)
          else if vs = [] then (Exit_ok ''No such record found'', \<lparr>world = vs, calls = cs @ [q]\<rparr>)
          else (Exit_ok (''Record found with different value, but not with '' @ p_value m),
                \<lparr>world = vs, calls = cs @ [q]\<rparr>))"
proof (cases "p_state m")
  case Present
  show ?thesis
  proof (cases "p_value m \<in> set vs")
    case True
    then have "vs \<noteq> []" by auto
    with True Present show ?thesis
      by (simp add: main_def Let_def get_exist_dns_store [OF assms(1)] reconcile_def value_found_stored)
  next
    case False
    with Present assms(2) show ?thesis
      by (simp add: main_def Let_def get_exist_dns_store [OF assms(1)] reconcile_def value_found_stored
          manage_dns_def run_command_def samba_tool_add)
  qed
next
  case Absent
  show ?thesis
  proof (cases "p_value m \<in> set vs")
    case True
    then have "vs \<noteq> []" by auto
    with True Absent assms(2) show ?thesis
      by (simp add: main_def Let_def get_exist_dns_store [OF assms(1)] reconcile_def fst_stored
          manage_dns_def run_command_def samba_tool_delete del: set_map map_map)
  next
    case False
    with Absent show ?thesis
      by (simp add: main_def Let_def get_exist_dns_store [OF assms(1)] reconcile_def fst_stored
          del: set_map map_map)
  qed
qed

text \<open>
  C8, as the claim states it, asks for a change on the first run for every desired state.
  When the state holds already there is none: the record has the value 10.1.1.123, the
  same value is wanted, and the first run ends unchanged.
\<close>

theorem already_present_counterexample:
  "classify (fst (main (samba_tool example_module) example_module
       \<lparr>world = [''10.1.1.123''], calls = []\<rparr>)) = Unchanged"
proof -
  have "\<forall>v \<in> set [''10.1.1.123'']. numeric v"
    by (simp add: numeric_def is_value_char_def)
  moreover have "\<not> check_mode example_module"
    by (simp add: example_module_def)
  ultimately show ?thesis
    by (simp add: main_store example_module_def)
qed

text \<open>
  C8, amended. Idempotence. Take a desired state whose value is made of digits and dots, a
  store of such values, a real run (not check mode) and no other actor. The first run ends
  changed when the desired state did not hold yet, and unchanged when it held already. The
  second run, on the store the first one left, always ends unchanged, and the only command
  it runs is the query: no add and no delete.
\<close>

theorem main_idempotent:
  fixes m :: ansible_module and vs :: "string list"
  defines "run1 \<equiv> main (samba_tool m) m \<lparr>world = vs, calls = []\<rparr>"
  defines "run2 \<equiv> main (samba_tool m) m \<lparr>world = world (snd run1), calls = []\<rparr>"
  assumes "\<not> check_mode m" and "numeric (p_value m)" and "\<forall>v \<in> set vs. numeric v"
  shows "classify (fst run1) =
           (if (case p_state m of Present \<Rightarrow> p_value m \<in> set vs | Absent \<Rightarrow> p_value m \<notin> set vs)
            then Unchanged else Changed) \<and>
         classify (fst run2) = Unchanged \<and>
         calls (snd run2) = [query_cmd (SambaToolDNS_init m) (p_record m) (p_type m)] \<and>
         (\<forall>c \<in> set (calls (snd run2)). subcommand c = Some ''query'')"
proof -
  have 1: "classify (fst run1) =
           (if (case p_state m of Present \<Rightarrow> p_value m \<in> set vs | Absent \<Rightarrow> p_value m \<notin> set vs)
            then Unchanged else Changed)"
    unfolding run1_def main_store [OF assms(5) assms(3)]
    by (auto simp: Let_def split: dns_state.splits)
  define ws where "ws = world (snd run1)"
  have ws: "ws = (case p_state m of
        Present \<Rightarrow> if p_value m \<in> set vs then vs else vs @ [p_value m]
      | Absent \<Rightarrow> removeAll (p_value m) vs)"
    unfolding ws_def run1_def main_store [OF assms(5) assms(3)]
    by (auto simp: Let_def split: dns_state.splits)
  have num: "\<forall>v \<in> set ws. numeric v"
    using assms(4,5) by (auto simp: ws split: dns_state.splits if_splits)
  have holds: "(case p_state m of Present \<Rightarrow> p_value m \<in> set ws | Absent \<Rightarrow> p_value m \<notin> set ws)"
    by (auto simp: ws split: dns_state.splits)
  have r2: "run2 = main (samba_tool m) m \<lparr>world = ws, calls = []\<rparr>"
    by (simp add: run2_def ws_def)
  have 2: "classify (fst run2) = Unchanged \<and>
      calls (snd run2) = [query_cmd (SambaToolDNS_init m) (p_record m) (p_type m)]"
    unfolding r2 main_store [OF num assms(3)] using holds
    by (auto simp: Let_def split: dns_state.splits)
  then have 3: "\<forall>c \<in> set (calls (snd run2)). subcommand c = Some ''query''"
    by simp
  from 1 2 3 show ?thesis by blast
qed

theorem main_idempotent_witness:
  "\<not> check_mode example_module \<and> numeric (p_value example_module) \<and>
   classify (fst (main (samba_tool example_module) example_module \<lparr>world = [], calls = []\<rparr>)) = Changed \<and>
   classify (fst (main (samba_tool example_module) example_module
       \<lparr>world = world (snd (main (samba_tool example_module) example_module \<lparr>world = [], calls = []\<rparr>)),
        calls = []\<rparr>)) = Unchanged \<and>
   calls (snd (main (samba_tool example_module) example_module
       \<lparr>world = world (snd (main (samba_tool example_module) example_module \<lparr>world = [], calls = []\<rparr>)),
        calls = []\<rparr>)) =
     [query_cmd (SambaToolDNS_init example_module) ''www'' A]"
proof -
  have h: "\<not> check_mode example_module" "numeric (p_value example_module)"
    "\<forall>v \<in> set ([] :: string list). numeric v"
    by (simp_all add: example_module_def numeric_def is_value_char_def)
  have p: "p_state example_module = Present" "p_record example_module = ''www''"
    "p_type example_module = A"
    by (simp_all add: example_module_def)
  show ?thesis
    using h(1,2) main_idempotent [OF h, unfolded p] by simp
qed

text \<open>
  Values of other shapes are outside the statement above. For the CNAME example the
  pattern finds nothing in the output of the second run's query, so the second run adds
  again and ends unchanged only because the tool refuses the duplicate.
\<close>

lemma d1: "decimal (Suc 0) = ''1''"
  by (subst decimal.simps) simp

lemma main_cname_twice:
  "main (samba_tool cname_module) cname_module \<lparr>world = [], calls = []\<rparr> =
     (Exit_changed True ''Record has been created'',
      \<lparr>world = [''www.example.com''],
       calls = [query_cmd (SambaToolDNS_init cname_module) ''web'' CNAME,
                manage_cmd (SambaToolDNS_init cname_module) ''web'' ''www.example.com'' CNAME ''add'']\<rparr>) \<and>
   main (samba_tool cname_module) cname_module \<lparr>world = [''www.example.com''], calls = []\<rparr> =
     (Exit_changed False ''Rercord already present'',
      \<lparr>world = [''www.example.com''],
       calls = [query_cmd (SambaToolDNS_init cname_module) ''web'' CNAME,
                manage_cmd (SambaToolDNS_init cname_module) ''web'' ''www.example.com'' CNAME ''add'']\<rparr>)"
proof -
  have p: "p_record cname_module = ''web''" "p_value cname_module = ''www.example.com''"
    "p_type cname_module = CNAME" "p_state cname_module = Present" "\<not> check_mode cname_module"
    by (simp_all add: cname_module_def example_module_def)
  have q: "findall CNAME (query_output CNAME [''www.example.com'']) = []"
    by (simp add: query_output_def record_line_def record_text_def d1 re_match_def re_value_def
        is_value_char_def)
  show ?thesis
    using samba_tool_query [of cname_module] samba_tool_add [of cname_module] q
    by (simp add: p main_def Let_def get_exist_dns_def reconcile_def manage_dns_def run_command_def)
qed

end
